theory Spec2Isabelle
  imports Main
begin

section \<open>Characters, strings and the filesystem table\<close>

text \<open>
  A Python \<open>str\<close> is a sequence of Unicode code points. A character is modelled by its
  code point (\<open>ord\<close>), a string by the list of its code points, so that names with
  characters beyond ASCII are inputs of the model as they are of the program.
\<close>

type_synonym pychar = nat
type_synonym pystr = "pychar list"

definition py :: "string \<Rightarrow> pystr" where
  \<comment> \<open>an ASCII literal as a Python string\<close>
  "py s = map of_char s"

definition underscore :: pychar where
  \<comment> \<open>the placeholder \<open>"_"\<close>\<close>
  "underscore = 95"

definition windows_disallowed :: pystr where
  \<comment> \<open>the literal \<open><>:"/\|?*\<close> of lines 23, 28 and 33\<close>
  "windows_disallowed = [60, 62, 58, 34, 47, 92, 124, 63, 42]"

definition FAT32 :: "pychar set" where
  "FAT32 = set (filter (\<lambda>i. i \<notin> set windows_disallowed) [32..<127])"

definition exFAT :: "pychar set" where
  "exFAT = set (filter (\<lambda>i. i \<notin> set windows_disallowed) [32..<127])"

definition NTFS :: "pychar set" where
  "NTFS = set (filter (\<lambda>i. i \<notin> set windows_disallowed) [32..<127])"

definition ext4 :: "pychar set" where
  \<comment> \<open>every code point of \<open>range(1, 127)\<close> but \<open>"/"\<close>\<close>
  "ext4 = set (filter (\<lambda>i. i \<noteq> 47) [1..<127])"

definition HFS_plus :: "pychar set" where
  \<comment> \<open>every code point of \<open>range(1, 127)\<close> but \<open>":"\<close>\<close>
  "HFS_plus = set (filter (\<lambda>i. i \<noteq> 58) [1..<127])"

definition FILESYSTEMS :: "string \<rightharpoonup> pychar set" where
  "FILESYSTEMS = map_of
     [(''FAT32'', FAT32), (''exFAT'', exFAT), (''NTFS'', NTFS),
      (''ext4'', ext4), (''HFS+'', HFS_plus)]"

section \<open>The sanitizer\<close>

text \<open>
  \<open>sanitize_filename\<close> runs over the characters of \<open>original\<close> with two locals: the list
  \<open>new_name_chars\<close> of one-character strings and the flag \<open>changed\<close>. One iteration of
  its loop is \<open>sanitize_step\<close>; \<open>sanitize_loop\<close> is the pair of locals when the loop
  ends. The function returns the joined list alone; the flag is dropped.
\<close>

fun sanitize_step :: "pychar set \<Rightarrow> pystr list \<times> bool \<Rightarrow> pychar \<Rightarrow> pystr list \<times> bool" where
  "sanitize_step allowed_chars (new_name_chars, changed) ch =
     (if ch \<in> allowed_chars then (new_name_chars @ [[ch]], changed)
      else (new_name_chars @ [[underscore]], True))"

definition sanitize_loop :: "pystr \<Rightarrow> pychar set \<Rightarrow> pystr list \<times> bool" where
  "sanitize_loop original allowed_chars =
     foldl (sanitize_step allowed_chars) ([], False) original"

definition sanitize_filename :: "pystr \<Rightarrow> pychar set \<Rightarrow> pystr" where
  "sanitize_filename original allowed_chars =
     concat (fst (sanitize_loop original allowed_chars))"

definition sanitize_changed :: "pystr \<Rightarrow> pychar set \<Rightarrow> bool" where
  \<comment> \<open>the value of the local \<open>changed\<close> at the \<open>return\<close>\<close>
  "sanitize_changed original allowed_chars = snd (sanitize_loop original allowed_chars)"

section \<open>The run: inputs, state and events\<close>

text \<open>
  \<open>main\<close> talks to the user, the console and the file system. What it reads from them is
  an input of the model, what it writes is part of the state it returns.

  A path is the list of its components. The store holds the regular files of the file
  system, source and destination trees alike, by path. Each \<open>os.walk\<close> is given by what it
  yields: one \<open>dir_entry\<close> per directory, in order, with the path of the directory relative
  to the source root, whether \<open>mkdir\<close> of its mirror succeeds, and its files; each file
  with its name, what \<open>stat().st_size\<close> gives (\<open>None\<close> when \<open>stat\<close> raises) and whether
  the environment lets \<open>shutil\<close> transfer it. The two walks of a run are two inputs.
\<close>

type_synonym path = "pystr list"
type_synonym content = string
type_synonym store = "path \<Rightarrow> content option"

datatype operation = COPY | MOVE

datatype exn = KeyError | OSError

datatype exit = Returned | SysExit nat | Uncaught exn

record file_entry =
  fname :: pystr
  st_size :: "nat option"
  xfer_ok :: bool

record dir_entry =
  rel_root :: path
  mkdir_ok :: bool
  files :: "file_entry list"

datatype event =
    Title
  | CreatedDest path
  | FailedCreateDest path
  | SwitchWarning path
  | Summary path string path string operation
  | Scanning
  | NoFilesFound path
  | Found nat nat
  | Canceled
  | Transferring
  | Renaming pystr pystr
  | FailedCOPY path
  | FailedMOVE path
  | ProgressUpdate nat nat nat
  | ProgressCompleted nat
  | Done nat nat

record state =
  console :: "event list"
  fs :: store
  mkdir_calls :: "path list"
  transferred_files :: nat
  transferred_bytes :: nat

record plan =
  source_root :: path
  dest_root :: path
  dest_allowed :: "pychar set"
  operation :: operation
  total_files :: nat
  total_bytes :: nat

record inputs =
  source_path :: path
  source_fs :: string
  dest_path :: path
  dest_exists :: bool
  dest_mkdir_ok :: bool
  dest_fs :: string
  operation_choice :: operation
  source_writable :: bool
  scan_walk :: "dir_entry list"
  proceed :: bool
  transfer_walk :: "dir_entry list"
  disk :: store

definition say :: "event \<Rightarrow> state \<Rightarrow> state" where
  \<comment> \<open>\<open>console.print\<close> and \<open>progress.update\<close>: one more line of output\<close>
  "say e s = s\<lparr>console := console s @ [e]\<rparr>"

section \<open>The transfer primitives\<close>

text \<open>
  \<open>shutil.copy2\<close> and \<open>shutil.move\<close> are library code. They are modelled by their effect
  on the store, \<open>None\<close> standing for a raised exception: both raise when the environment
  refuses the transfer or the source file is gone; \<open>copy2\<close> raises when source and
  destination are the same file; neither looks whether the destination already exists, a
  file there is replaced. \<open>move\<close> removes the source.
\<close>

definition copy2 :: "bool \<Rightarrow> path \<Rightarrow> path \<Rightarrow> store \<Rightarrow> store option" where
  "copy2 ok src dst st =
     (case st src of
        None \<Rightarrow> None
      | Some c \<Rightarrow> if \<not> ok \<or> src = dst then None else Some (st(dst \<mapsto> c)))"

definition move :: "bool \<Rightarrow> path \<Rightarrow> path \<Rightarrow> store \<Rightarrow> store option" where
  "move ok src dst st =
     (case st src of
        None \<Rightarrow> None
      | Some c \<Rightarrow> if \<not> ok then None else Some ((st(src := None))(dst \<mapsto> c)))"

section \<open>The discovery pass\<close>

fun scan_file :: "nat \<times> nat \<Rightarrow> file_entry \<Rightarrow> nat \<times> nat" where
  "scan_file (n_files, n_bytes) f =
     (case st_size f of
        Some n \<Rightarrow> (n_files + 1, n_bytes + n)
      | None \<Rightarrow> (n_files + 1, n_bytes))"

definition scan :: "dir_entry list \<Rightarrow> nat \<times> nat" where
  "scan walk = foldl (\<lambda>acc d. foldl scan_file acc (files d)) (0, 0) walk"

section \<open>The transfer pass\<close>

definition src_path :: "plan \<Rightarrow> dir_entry \<Rightarrow> file_entry \<Rightarrow> path" where
  "src_path p d f = source_root p @ rel_root d @ [fname f]"

definition dest_subdir :: "plan \<Rightarrow> dir_entry \<Rightarrow> path" where
  "dest_subdir p d = dest_root p @ rel_root d"

definition dst_path :: "plan \<Rightarrow> dir_entry \<Rightarrow> file_entry \<Rightarrow> path" where
  "dst_path p d f = dest_subdir p d @ [sanitize_filename (fname f) (dest_allowed p)]"

definition fsize :: "file_entry \<Rightarrow> nat" where
  "fsize f = (case st_size f of Some n \<Rightarrow> n | None \<Rightarrow> 0)"

definition transfer_file :: "plan \<Rightarrow> dir_entry \<Rightarrow> state \<Rightarrow> file_entry \<Rightarrow> state" where
  \<comment> \<open>one iteration of the inner loop, lines 239 to 269\<close>
  "transfer_file p d s f =
     (let s1 = s\<lparr>transferred_files := transferred_files s + 1\<rparr>;
          safe_name = sanitize_filename (fname f) (dest_allowed p);
          s2 = (if safe_name \<noteq> fname f then say (Renaming (fname f) safe_name) s1 else s1)
      in case operation p of
           COPY \<Rightarrow>
             (case copy2 (xfer_ok f) (src_path p d f) (dst_path p d f) (fs s2) of
                None \<Rightarrow> say (FailedCOPY (src_path p d f)) s2
              | Some st \<Rightarrow>
                  say (ProgressUpdate (fsize f) (transferred_files s2) (total_files p))
                    (s2\<lparr>fs := st, transferred_bytes := transferred_bytes s2 + fsize f\<rparr>))
         | MOVE \<Rightarrow>
             (case move (xfer_ok f) (src_path p d f) (dst_path p d f) (fs s2) of
                None \<Rightarrow> say (FailedMOVE (src_path p d f)) s2
              | Some st \<Rightarrow>
                  say (ProgressUpdate (fsize f) (transferred_files s2) (total_files p))
                    (s2\<lparr>fs := st, transferred_bytes := transferred_bytes s2 + fsize f\<rparr>)))"

definition transfer_files :: "plan \<Rightarrow> dir_entry \<Rightarrow> file_entry list \<Rightarrow> state \<Rightarrow> state" where
  "transfer_files p d fl s = foldl (transfer_file p d) s fl"

fun transfer_pass :: "plan \<Rightarrow> dir_entry list \<Rightarrow> state \<Rightarrow> (exn \<times> state) + state" where
  \<comment> \<open>the outer loop, lines 232 to 269; a failing \<open>mkdir\<close> raises and nothing catches it\<close>
  "transfer_pass p [] s = Inr s"
| "transfer_pass p (d # ds) s =
     (let s1 = s\<lparr>mkdir_calls := mkdir_calls s @ [dest_subdir p d]\<rparr>
      in if \<not> mkdir_ok d then Inl (OSError, s1)
         else transfer_pass p ds (transfer_files p d (files d) s1))"

section \<open>The program\<close>

definition choose_operation :: "inputs \<Rightarrow> state \<Rightarrow> operation \<times> state" where
  \<comment> \<open>lines 166 to 169\<close>
  "choose_operation inp s =
     (if operation_choice inp = MOVE \<and> \<not> source_writable inp
      then (COPY, say (SwitchWarning (source_path inp)) s)
      else (operation_choice inp, s))"

definition transfer :: "inputs \<Rightarrow> pychar set \<Rightarrow> operation \<Rightarrow> state \<Rightarrow> exit \<times> state" where
  \<comment> \<open>lines 171 to 273: summary, discovery, confirmation, transfer\<close>
  "transfer inp allowed opn s =
     (let s1 = say Scanning
                 (say (Summary (source_path inp) (source_fs inp) (dest_path inp) (dest_fs inp) opn) s);
          (n_files, n_bytes) = scan (scan_walk inp)
      in if n_files = 0 then (SysExit 0, say (NoFilesFound (source_path inp)) s1)
         else
           let s2 = say (Found n_files n_bytes) s1
           in if \<not> proceed inp then (SysExit 0, say Canceled s2)
              else
                let p = \<lparr>source_root = source_path inp, dest_root = dest_path inp,
                         dest_allowed = allowed, operation = opn,
                         total_files = n_files, total_bytes = n_bytes\<rparr>
                in (case transfer_pass p (transfer_walk inp) (say Transferring s2) of
                      Inl (e, s3) \<Rightarrow> (Uncaught e, s3)
                    | Inr s3 \<Rightarrow>
                        (Returned,
                         say (Done (transferred_files s3) (transferred_bytes s3))
                           (say (ProgressCompleted n_bytes) s3))))"

definition main :: "inputs \<Rightarrow> exit \<times> state" where
  "main inp =
     (let s0 = \<lparr>console = [Title], fs = disk inp, mkdir_calls = [],
                transferred_files = 0, transferred_bytes = 0\<rparr>
      in case FILESYSTEMS (source_fs inp) of
           None \<Rightarrow> (Uncaught KeyError, s0)
         | Some source_allowed \<Rightarrow>
             if \<not> dest_exists inp \<and> \<not> dest_mkdir_ok inp
             then (SysExit 1, say (FailedCreateDest (dest_path inp)) s0)
             else
               let s1 = (if \<not> dest_exists inp then say (CreatedDest (dest_path inp)) s0 else s0)
               in (case FILESYSTEMS (dest_fs inp) of
                     None \<Rightarrow> (Uncaught KeyError, s1)
                   | Some allowed \<Rightarrow>
                       (case choose_operation inp s1 of
                          (opn, s2) \<Rightarrow> transfer inp allowed opn s2)))"

section \<open>Reading a run\<close>

text \<open>
  The definitions of this section are not part of the program; they name what the
  theorems speak about. \<open>attempt\<close> is the call to \<open>shutil\<close> that \<open>transfer_file\<close> makes,
  \<open>notices\<close> what \<open>transfer_file\<close> prints, \<open>state_of\<close> the state in which the transfer
  pass ends or raises, \<open>quiet\<close> a state without its console.
\<close>

definition attempt :: "plan \<Rightarrow> dir_entry \<Rightarrow> store \<Rightarrow> file_entry \<Rightarrow> store option" where
  "attempt p d st f =
     (case operation p of
        COPY \<Rightarrow> copy2 (xfer_ok f) (src_path p d f) (dst_path p d f) st
      | MOVE \<Rightarrow> move (xfer_ok f) (src_path p d f) (dst_path p d f) st)"

definition notices :: "plan \<Rightarrow> dir_entry \<Rightarrow> state \<Rightarrow> file_entry \<Rightarrow> event list" where
  "notices p d s f =
     (if sanitize_filename (fname f) (dest_allowed p) \<noteq> fname f
      then [Renaming (fname f) (sanitize_filename (fname f) (dest_allowed p))] else []) @
     (case attempt p d (fs s) f of
        None \<Rightarrow> (case operation p of COPY \<Rightarrow> [FailedCOPY (src_path p d f)]
                                   | MOVE \<Rightarrow> [FailedMOVE (src_path p d f)])
      | Some st \<Rightarrow> [ProgressUpdate (fsize f) (transferred_files s + 1) (total_files p)])"

definition state_of :: "(exn \<times> state) + state \<Rightarrow> state" where
  "state_of r = (case r of Inl (e, s) \<Rightarrow> s | Inr s \<Rightarrow> s)"

fun is_transfer_event :: "event \<Rightarrow> bool" where
  "is_transfer_event (Renaming a b) = True"
| "is_transfer_event (FailedCOPY q) = True"
| "is_transfer_event (FailedMOVE q) = True"
| "is_transfer_event (ProgressUpdate a b c) = True"
| "is_transfer_event e = False"

definition all_files :: "dir_entry list \<Rightarrow> file_entry list" where
  "all_files walk = concat (map files walk)"

definition quiet :: "state \<Rightarrow> state" where
  "quiet s = s\<lparr>console := []\<rparr>"

definition quiet_result :: "(exn \<times> state) + state \<Rightarrow> (exn \<times> state) + state" where
  "quiet_result r = (case r of Inl (e, s) \<Rightarrow> Inl (e, quiet s) | Inr s \<Rightarrow> Inr (quiet s))"

text \<open>
  A run reaches the transfer pass when both filesystem names are in the table, the
  destination exists or could be created, discovery found a file and the user said yes.
  \<open>plan_of\<close> and \<open>start_state\<close> are then the locals of \<open>main\<close> and its state when the
  pass begins, \<open>finish\<close> what \<open>main\<close> does with the outcome of the pass (lemma
  \<open>main_reaches\<close>).
\<close>

definition reaches_transfer :: "inputs \<Rightarrow> bool" where
  "reaches_transfer inp \<longleftrightarrow>
     FILESYSTEMS (source_fs inp) \<noteq> None \<and> (dest_exists inp \<or> dest_mkdir_ok inp) \<and>
     FILESYSTEMS (dest_fs inp) \<noteq> None \<and> fst (scan (scan_walk inp)) \<noteq> 0 \<and> proceed inp"

definition plan_of :: "inputs \<Rightarrow> plan" where
  "plan_of inp =
     \<lparr>source_root = source_path inp, dest_root = dest_path inp,
      dest_allowed = (case FILESYSTEMS (dest_fs inp) of Some a \<Rightarrow> a | None \<Rightarrow> {}),
      operation = (if operation_choice inp = MOVE \<and> \<not> source_writable inp then COPY
                   else operation_choice inp),
      total_files = fst (scan (scan_walk inp)), total_bytes = snd (scan (scan_walk inp))\<rparr>"

definition setup_console :: "inputs \<Rightarrow> event list" where
  "setup_console inp =
     [Title] @ (if dest_exists inp then [] else [CreatedDest (dest_path inp)]) @
     (if operation_choice inp = MOVE \<and> \<not> source_writable inp
      then [SwitchWarning (source_path inp)] else []) @
     [Summary (source_path inp) (source_fs inp) (dest_path inp) (dest_fs inp)
        (operation (plan_of inp)),
      Scanning]"

definition start_console :: "inputs \<Rightarrow> event list" where
  "start_console inp =
     setup_console inp @
     [Found (total_files (plan_of inp)) (total_bytes (plan_of inp)), Transferring]"

definition start_state :: "inputs \<Rightarrow> state" where
  "start_state inp =
     \<lparr>console = start_console inp, fs = disk inp, mkdir_calls = [],
      transferred_files = 0, transferred_bytes = 0\<rparr>"

definition finish :: "inputs \<Rightarrow> (exn \<times> state) + state \<Rightarrow> exit \<times> state" where
  "finish inp r =
     (case r of
        Inl (e, s) \<Rightarrow> (Uncaught e, s)
      | Inr s \<Rightarrow>
          (Returned,
           say (Done (transferred_files s) (transferred_bytes s))
             (say (ProgressCompleted (total_bytes (plan_of inp))) s)))"

text \<open>
  The point of the transfer pass after \<open>k\<close> directories and \<open>j\<close> files of the next one
  is the end of the pass over that much of the walk (lemma \<open>pass_resumes\<close>).
\<close>

definition walk_prefix :: "nat \<Rightarrow> nat \<Rightarrow> dir_entry list \<Rightarrow> dir_entry list" where
  "walk_prefix k j walk =
     take k walk @
     (case drop k walk of [] \<Rightarrow> [] | d # ds \<Rightarrow> [d\<lparr>files := take j (files d)\<rparr>])"

section \<open>Example runs\<close>

text \<open>
  Concrete inputs of \<open>main\<close>, one for each situation the theorems below are tried on:
  a copy that fails, two names with one sanitized form, a file that grows between the
  passes, a directory that cannot be created, MOVE from a source that is not writable,
  and a directory whose name the destination does not allow.
\<close>

definition top_dir :: "file_entry list \<Rightarrow> dir_entry" where
  "top_dir fl = \<lparr>rel_root = [], mkdir_ok = True, files = fl\<rparr>"

definition first_file :: file_entry where
  "first_file = \<lparr>fname = py ''a:b.txt'', st_size = Some 5, xfer_ok = True\<rparr>"

definition second_file :: file_entry where
  "second_file = \<lparr>fname = py ''a_b.txt'', st_size = Some 6, xfer_ok = True\<rparr>"

definition one_failure :: inputs where
  "one_failure =
     \<lparr>source_path = [py ''src''], source_fs = ''ext4'',
      dest_path = [py ''dst''], dest_exists = True, dest_mkdir_ok = True,
      dest_fs = ''FAT32'', operation_choice = COPY, source_writable = True,
      scan_walk = [\<lparr>rel_root = [], mkdir_ok = True,
                     files = [\<lparr>fname = py ''a.txt'', st_size = Some 5, xfer_ok = False\<rparr>,
                              \<lparr>fname = py ''b.txt'', st_size = Some 7, xfer_ok = True\<rparr>]\<rparr>],
      proceed = True,
      transfer_walk = [\<lparr>rel_root = [], mkdir_ok = True,
                     files = [\<lparr>fname = py ''a.txt'', st_size = Some 5, xfer_ok = False\<rparr>,
                              \<lparr>fname = py ''b.txt'', st_size = Some 7, xfer_ok = True\<rparr>]\<rparr>],
      disk = [[py ''src'', py ''a.txt''] \<mapsto> ''A'', [py ''src'', py ''b.txt''] \<mapsto> ''B'']\<rparr>"

definition collision :: inputs where
  "collision =
     \<lparr>source_path = [py ''src''], source_fs = ''ext4'',
      dest_path = [py ''dst''], dest_exists = True, dest_mkdir_ok = True,
      dest_fs = ''FAT32'', operation_choice = COPY, source_writable = True,
      scan_walk = [top_dir [first_file, second_file]],
      proceed = True,
      transfer_walk = [top_dir [first_file, second_file]],
      disk = [[py ''src'', py ''a:b.txt''] \<mapsto> ''first'',
              [py ''src'', py ''a_b.txt''] \<mapsto> ''second'']\<rparr>"

definition grown :: inputs where
  "grown =
     \<lparr>source_path = [py ''src''], source_fs = ''ext4'',
      dest_path = [py ''dst''], dest_exists = True, dest_mkdir_ok = True,
      dest_fs = ''FAT32'', operation_choice = COPY, source_writable = True,
      scan_walk = [top_dir [\<lparr>fname = py ''a.txt'', st_size = Some 3, xfer_ok = True\<rparr>]],
      proceed = True,
      transfer_walk = [top_dir [\<lparr>fname = py ''a.txt'', st_size = Some 5, xfer_ok = True\<rparr>]],
      disk = [[py ''src'', py ''a.txt''] \<mapsto> ''hello'']\<rparr>"

definition failing_walk :: "dir_entry list" where
  "failing_walk =
     [top_dir [\<lparr>fname = py ''a.txt'', st_size = Some 1, xfer_ok = True\<rparr>],
      \<lparr>rel_root = [py ''sub''], mkdir_ok = False,
       files = [\<lparr>fname = py ''b.txt'', st_size = Some 1, xfer_ok = True\<rparr>]\<rparr>,
      \<lparr>rel_root = [py ''other''], mkdir_ok = True,
       files = [\<lparr>fname = py ''c.txt'', st_size = Some 1, xfer_ok = True\<rparr>]\<rparr>]"

definition mkdir_failure :: inputs where
  "mkdir_failure =
     \<lparr>source_path = [py ''src''], source_fs = ''ext4'',
      dest_path = [py ''dst''], dest_exists = True, dest_mkdir_ok = True,
      dest_fs = ''FAT32'', operation_choice = COPY, source_writable = True,
      scan_walk = failing_walk, proceed = True, transfer_walk = failing_walk,
      disk = [[py ''src'', py ''a.txt''] \<mapsto> ''A'',
              [py ''src'', py ''sub'', py ''b.txt''] \<mapsto> ''B'',
              [py ''src'', py ''other'', py ''c.txt''] \<mapsto> ''C'']\<rparr>"

definition readonly_move :: inputs where
  "readonly_move =
     \<lparr>source_path = [py ''src''], source_fs = ''ext4'',
      dest_path = [py ''dst''], dest_exists = True, dest_mkdir_ok = True,
      dest_fs = ''FAT32'', operation_choice = MOVE, source_writable = False,
      scan_walk = [top_dir [\<lparr>fname = py ''a.txt'', st_size = Some 5, xfer_ok = True\<rparr>]],
      proceed = True,
      transfer_walk = [top_dir [\<lparr>fname = py ''a.txt'', st_size = Some 5, xfer_ok = True\<rparr>]],
      disk = [[py ''src'', py ''a.txt''] \<mapsto> ''hello'']\<rparr>"

definition illegal_dir :: inputs where
  "illegal_dir =
     \<lparr>source_path = [py ''src''], source_fs = ''ext4'',
      dest_path = [py ''dst''], dest_exists = True, dest_mkdir_ok = True,
      dest_fs = ''FAT32'', operation_choice = COPY, source_writable = True,
      scan_walk = [top_dir [],
                   \<lparr>rel_root = [py ''a:b''], mkdir_ok = True,
                    files = [\<lparr>fname = py ''c:d.txt'', st_size = Some 4, xfer_ok = True\<rparr>]\<rparr>],
      proceed = True,
      transfer_walk = [top_dir [],
                   \<lparr>rel_root = [py ''a:b''], mkdir_ok = True,
                    files = [\<lparr>fname = py ''c:d.txt'', st_size = Some 4, xfer_ok = True\<rparr>]\<rparr>],
      disk = [[py ''src'', py ''a:b'', py ''c:d.txt''] \<mapsto> ''data'']\<rparr>"

section \<open>Properties of the sanitizer\<close>

lemma sanitize_foldl:
  "foldl (sanitize_step A) (acc, b) xs =
     (acc @ map (\<lambda>c. [if c \<in> A then c else underscore]) xs, b \<or> (\<exists>c\<in>set xs. c \<notin> A))"
  by (induction xs arbitrary: acc b) auto

lemma concat_singletons: "concat (map (\<lambda>c. [g c]) xs) = map g xs"
  by (induction xs) simp_all

lemma sanitize_filename_map:
  "sanitize_filename original A = map (\<lambda>c. if c \<in> A then c else underscore) original"
  by (simp add: sanitize_filename_def sanitize_loop_def sanitize_foldl concat_singletons)

lemma sanitize_changed_iff:
  "sanitize_changed original A \<longleftrightarrow> (\<exists>c\<in>set original. c \<notin> A)"
  by (simp add: sanitize_changed_def sanitize_loop_def sanitize_foldl)

lemma underscore_shipped:
  "FILESYSTEMS k = Some P \<Longrightarrow> underscore \<in> P"
  by (auto simp: FILESYSTEMS_def FAT32_def exFAT_def NTFS_def ext4_def HFS_plus_def
      underscore_def windows_disallowed_def split: if_splits)

text \<open>
  C1. For every name and every allowed-character set, the sanitized name has the length
  of the input, and its i-th character is the i-th input character when that character
  is allowed, and the underscore when it is not.
\<close>

theorem sanitize_pointwise:
  "length (sanitize_filename original A) = length original \<and>
   (\<forall>i<length original.
      sanitize_filename original A ! i =
        (if original ! i \<in> A then original ! i else underscore))"
  by (simp add: sanitize_filename_map)

theorem sanitize_pointwise_witness:
  "length (sanitize_filename (py ''a:b'') FAT32) = length (py ''a:b'') \<and>
   sanitize_filename (py ''a:b'') FAT32 ! 0 = py ''a:b'' ! 0 \<and>
   sanitize_filename (py ''a:b'') FAT32 ! 1 = underscore \<and>
   py ''a:b'' ! 1 \<notin> FAT32"
  using sanitize_pointwise [of "py ''a:b''" FAT32]
  by (simp add: py_def FAT32_def windows_disallowed_def)

lemma map_fixed_iff: "map g xs = xs \<longleftrightarrow> (\<forall>x\<in>set xs. g x = x)"
  by (induction xs) auto

lemma sanitize_differs_iff:
  "sanitize_filename original A \<noteq> original \<longleftrightarrow>
     (\<exists>c\<in>set original. c \<notin> A \<and> c \<noteq> underscore)"
  by (auto simp: sanitize_filename_map map_fixed_iff)

text \<open>
  C5, as stated, fails. The function returns the sanitized name alone, and its flag
  \<open>changed\<close> records that a character was replaced, also when the replaced character
  is itself an underscore: with the lower-case letters as the allowed set, \<open>a_b\<close> sets
  the flag and comes back as \<open>a_b\<close>.
\<close>

theorem sanitize_changed_counterexample:
  "\<not> (sanitize_changed (py ''a_b'') (set [97..<123]) \<longleftrightarrow>
      sanitize_filename (py ''a_b'') (set [97..<123]) \<noteq> py ''a_b'')"
  by (simp add: sanitize_changed_iff sanitize_filename_map py_def underscore_def)

text \<open>
  C5, amended. The flag \<open>changed\<close> is true iff some character of the name is not
  allowed, that is iff a substitution occurred; the sanitized name differs from the
  original iff some character is neither allowed nor the underscore; when the underscore
  is allowed, as in the five shipped profiles, the flag is true iff the sanitized name
  differs from the original.
\<close>

theorem sanitize_changed_amended:
  "(sanitize_changed original A \<longleftrightarrow> (\<exists>c\<in>set original. c \<notin> A)) \<and>
   (sanitize_filename original A \<noteq> original \<longleftrightarrow>
      (\<exists>c\<in>set original. c \<notin> A \<and> c \<noteq> underscore)) \<and>
   (underscore \<in> A \<longrightarrow>
      (sanitize_changed original A \<longleftrightarrow> sanitize_filename original A \<noteq> original))"
  using sanitize_differs_iff [of original A] sanitize_changed_iff [of original A]
  by auto

theorem sanitize_changed_amended_witness:
  "underscore \<in> FAT32 \<and>
   sanitize_changed (py ''a:b'') FAT32 \<and>
   sanitize_filename (py ''a:b'') FAT32 \<noteq> py ''a:b'' \<and>
   \<not> sanitize_changed (py ''a_b'') FAT32 \<and>
   sanitize_filename (py ''a_b'') FAT32 = py ''a_b''"
  using sanitize_changed_amended [of "py ''a:b''" FAT32]
    sanitize_changed_amended [of "py ''a_b''" FAT32]
  by (simp add: py_def FAT32_def windows_disallowed_def underscore_def)

text \<open>
  C6. Sanitizing is idempotent for every name and every allowed-character set, whether
  the underscore belongs to the set or not.
\<close>

theorem sanitize_idempotent:
  "sanitize_filename (sanitize_filename original A) A = sanitize_filename original A"
  by (simp add: sanitize_filename_map)

text \<open>
  C10. Every character of a sanitized name is allowed or is the underscore; the
  underscore is allowed in each of the five shipped profiles, so a name sanitized against
  a shipped profile consists of characters that profile allows.
\<close>

theorem sanitize_legal:
  "(\<forall>c\<in>set (sanitize_filename original A). c \<in> A \<or> c = underscore) \<and>
   (\<forall>k P. FILESYSTEMS k = Some P \<longrightarrow>
      underscore \<in> P \<and> (\<forall>c\<in>set (sanitize_filename original P). c \<in> P))"
  using underscore_shipped by (auto simp: sanitize_filename_map)

theorem sanitize_legal_witness:
  "FILESYSTEMS ''FAT32'' = Some FAT32 \<and> underscore \<in> FAT32 \<and>
   sanitize_filename (py ''a:b'') FAT32 = py ''a_b'' \<and>
   list_all (\<lambda>c. c \<in> FAT32) (py ''a_b'')"
  using sanitize_legal [of "py ''a:b''" FAT32]
  by (simp add: FILESYSTEMS_def sanitize_filename_map py_def FAT32_def
      windows_disallowed_def underscore_def)

section \<open>One file\<close>

lemma transfer_file_files [simp]:
  "transferred_files (transfer_file p d s f) = transferred_files s + 1"
  by (simp add: transfer_file_def say_def Let_def split: operation.splits option.splits)

lemma transfer_file_mkdir [simp]:
  "mkdir_calls (transfer_file p d s f) = mkdir_calls s"
  by (simp add: transfer_file_def say_def Let_def split: operation.splits option.splits)

lemma transfer_file_bytes:
  "transferred_bytes (transfer_file p d s f) =
     transferred_bytes s + (case attempt p d (fs s) f of None \<Rightarrow> 0 | Some st \<Rightarrow> fsize f)"
  by (simp add: transfer_file_def attempt_def say_def Let_def split: operation.splits option.splits)

lemma transfer_file_fs:
  "fs (transfer_file p d s f) = (case attempt p d (fs s) f of None \<Rightarrow> fs s | Some st \<Rightarrow> st)"
  by (simp add: transfer_file_def attempt_def say_def Let_def split: operation.splits option.splits)

lemma transfer_file_console:
  "console (transfer_file p d s f) = console s @ notices p d s f"
  by (simp add: transfer_file_def attempt_def notices_def say_def Let_def
      split: operation.splits option.splits)

lemma notices_transfer_events: "list_all is_transfer_event (notices p d s f)"
  by (simp add: notices_def split: option.splits operation.splits)

section \<open>The files of a directory\<close>

lemma transfer_files_Nil [simp]: "transfer_files p d [] s = s"
  by (simp add: transfer_files_def)

lemma transfer_files_Cons [simp]:
  "transfer_files p d (f # fl) s = transfer_files p d fl (transfer_file p d s f)"
  by (simp add: transfer_files_def)

lemma transfer_files_append:
  "transfer_files p d (xs @ ys) s = transfer_files p d ys (transfer_files p d xs s)"
  by (simp add: transfer_files_def)

lemma transfer_files_count [simp]:
  "transferred_files (transfer_files p d fl s) = transferred_files s + length fl"
  by (induction fl arbitrary: s) simp_all

lemma transfer_files_mkdir [simp]:
  "mkdir_calls (transfer_files p d fl s) = mkdir_calls s"
  by (induction fl arbitrary: s) simp_all

lemma transfer_file_bytes_le:
  "transferred_bytes (transfer_file p d s f) \<le> transferred_bytes s + fsize f"
  by (simp add: transfer_file_bytes split: option.splits)

lemma transfer_file_bytes_ge:
  "transferred_bytes s \<le> transferred_bytes (transfer_file p d s f)"
  by (simp add: transfer_file_bytes)

lemma transfer_files_bytes_le:
  "transferred_bytes (transfer_files p d fl s) \<le> transferred_bytes s + sum_list (map fsize fl)"
proof (induction fl arbitrary: s)
  case Nil
  show ?case by simp
next
  case (Cons f fl)
  have "transferred_bytes (transfer_files p d fl (transfer_file p d s f))
          \<le> transferred_bytes (transfer_file p d s f) + sum_list (map fsize fl)"
    by (rule Cons.IH)
  also have "\<dots> \<le> transferred_bytes s + fsize f + sum_list (map fsize fl)"
    using transfer_file_bytes_le [of p d s f] by simp
  finally show ?case by simp
qed

lemma transfer_files_console:
  "\<exists>ev. console (transfer_files p d fl s) = console s @ ev \<and> list_all is_transfer_event ev"
proof (induction fl arbitrary: s)
  case Nil
  show ?case by simp
next
  case (Cons f fl)
  obtain ev where ev: "console (transfer_files p d fl (transfer_file p d s f)) =
      console (transfer_file p d s f) @ ev" "list_all is_transfer_event ev"
    using Cons.IH by blast
  have "console (transfer_files p d (f # fl) s) = console s @ (notices p d s f @ ev)"
    using ev(1) by (simp add: transfer_file_console)
  moreover have "list_all is_transfer_event (notices p d s f @ ev)"
    using ev(2) notices_transfer_events by simp
  ultimately show ?case by blast
qed

lemma copy_keeps_files:
  "operation p = COPY \<Longrightarrow> dom (fs s) \<subseteq> dom (fs (transfer_file p d s f))"
  by (auto simp: transfer_file_fs attempt_def copy2_def split: option.splits if_splits)

lemma copy_keeps_files_list:
  "operation p = COPY \<Longrightarrow> dom (fs s) \<subseteq> dom (fs (transfer_files p d fl s))"
proof (induction fl arbitrary: s)
  case Nil
  show ?case by simp
next
  case (Cons f fl)
  have "dom (fs s) \<subseteq> dom (fs (transfer_file p d s f))"
    using Cons.prems by (rule copy_keeps_files)
  also have "\<dots> \<subseteq> dom (fs (transfer_files p d fl (transfer_file p d s f)))"
    using Cons.prems by (rule Cons.IH)
  finally show ?case by simp
qed

lemma failed_transfer_effect:
  assumes "attempt p d (fs s) f = None"
  shows "transferred_files (transfer_file p d s f) = transferred_files s + 1 \<and>
         transferred_bytes (transfer_file p d s f) = transferred_bytes s \<and>
         fs (transfer_file p d s f) = fs s \<and>
         console (transfer_file p d s f) = console s @ notices p d s f"
  using assms by (simp add: transfer_file_bytes transfer_file_fs transfer_file_console)

section \<open>Properties of the transfer pass\<close>

lemma state_of_simps [simp]: "state_of (Inl (e, s)) = s" "state_of (Inr s) = s"
  by (simp_all add: state_of_def)

lemma transfer_pass_append:
  "transfer_pass p (xs @ ys) s =
     (case transfer_pass p xs s of Inl r \<Rightarrow> Inl r | Inr s' \<Rightarrow> transfer_pass p ys s')"
  by (induction xs arbitrary: s) (simp_all add: Let_def)

lemma transfer_pass_bytes_le:
  "transferred_bytes (state_of (transfer_pass p walk s))
     \<le> transferred_bytes s + sum_list (map fsize (all_files walk))"
proof (induction walk arbitrary: s)
  case Nil
  show ?case by (simp add: all_files_def)
next
  case (Cons d ds)
  let ?s1 = "s\<lparr>mkdir_calls := mkdir_calls s @ [dest_subdir p d]\<rparr>"
  show ?case
  proof (cases "mkdir_ok d")
    case False
    then show ?thesis by (simp add: Let_def)
  next
    case True
    have "transferred_bytes (state_of (transfer_pass p ds (transfer_files p d (files d) ?s1)))
            \<le> transferred_bytes (transfer_files p d (files d) ?s1)
               + sum_list (map fsize (all_files ds))"
      by (rule Cons.IH)
    also have "\<dots> \<le> transferred_bytes s + sum_list (map fsize (files d))
               + sum_list (map fsize (all_files ds))"
      using transfer_files_bytes_le [of p d "files d" ?s1] by simp
    finally show ?thesis using True by (simp add: Let_def all_files_def)
  qed
qed

lemma transfer_pass_console:
  "\<exists>ev. console (state_of (transfer_pass p walk s)) = console s @ ev \<and>
        list_all is_transfer_event ev"
proof (induction walk arbitrary: s)
  case Nil
  show ?case by simp
next
  case (Cons d ds)
  let ?s1 = "s\<lparr>mkdir_calls := mkdir_calls s @ [dest_subdir p d]\<rparr>"
  show ?case
  proof (cases "mkdir_ok d")
    case False
    then show ?thesis by (simp add: Let_def)
  next
    case True
    obtain ev1 where ev1: "console (transfer_files p d (files d) ?s1) = console ?s1 @ ev1"
        "list_all is_transfer_event ev1"
      using transfer_files_console by blast
    obtain ev2 where ev2:
        "console (state_of (transfer_pass p ds (transfer_files p d (files d) ?s1))) =
           console (transfer_files p d (files d) ?s1) @ ev2"
        "list_all is_transfer_event ev2"
      using Cons.IH by blast
    have "console (state_of (transfer_pass p (d # ds) s)) = console s @ (ev1 @ ev2)"
      using True ev1(1) ev2(1) by (simp add: Let_def)
    moreover have "list_all is_transfer_event (ev1 @ ev2)"
      using ev1(2) ev2(2) by simp
    ultimately show ?thesis by blast
  qed
qed

lemma copy_pass_keeps_files:
  "operation p = COPY \<Longrightarrow> dom (fs s) \<subseteq> dom (fs (state_of (transfer_pass p walk s)))"
proof (induction walk arbitrary: s)
  case Nil
  show ?case by simp
next
  case (Cons d ds)
  let ?s1 = "s\<lparr>mkdir_calls := mkdir_calls s @ [dest_subdir p d]\<rparr>"
  show ?case
  proof (cases "mkdir_ok d")
    case False
    then show ?thesis by (simp add: Let_def)
  next
    case True
    have "dom (fs s) \<subseteq> dom (fs (transfer_files p d (files d) ?s1))"
      using copy_keeps_files_list [OF Cons.prems, of ?s1 d "files d"] by simp
    also have "\<dots> \<subseteq> dom (fs (state_of (transfer_pass p ds (transfer_files p d (files d) ?s1))))"
      using Cons.prems by (rule Cons.IH)
    finally show ?thesis using True by (simp add: Let_def)
  qed
qed

lemma transfer_pass_mkdir_ok:
  "\<forall>d\<in>set walk. mkdir_ok d \<Longrightarrow>
     \<exists>s'. transfer_pass p walk s = Inr s' \<and>
          mkdir_calls s' = mkdir_calls s @ map (dest_subdir p) walk"
proof (induction walk arbitrary: s)
  case Nil
  show ?case by simp
next
  case (Cons d ds)
  let ?s1 = "s\<lparr>mkdir_calls := mkdir_calls s @ [dest_subdir p d]\<rparr>"
  from Cons.prems have ok: "mkdir_ok d" and rest: "\<forall>d\<in>set ds. mkdir_ok d" by simp_all
  obtain s' where s': "transfer_pass p ds (transfer_files p d (files d) ?s1) = Inr s'"
      "mkdir_calls s' = mkdir_calls (transfer_files p d (files d) ?s1) @ map (dest_subdir p) ds"
    using Cons.IH [OF rest] by blast
  show ?case using ok s' by (simp add: Let_def)
qed

lemma transfer_pass_mkdir_prefix:
  "\<exists>n\<le>length walk. mkdir_calls (state_of (transfer_pass p walk s)) =
     mkdir_calls s @ map (dest_subdir p) (take n walk)"
proof (induction walk arbitrary: s)
  case Nil
  show ?case by simp
next
  case (Cons d ds)
  let ?s1 = "s\<lparr>mkdir_calls := mkdir_calls s @ [dest_subdir p d]\<rparr>"
  show ?case
  proof (cases "mkdir_ok d")
    case False
    then have "mkdir_calls (state_of (transfer_pass p (d # ds) s)) =
        mkdir_calls s @ map (dest_subdir p) (take 1 (d # ds))"
      by (simp add: Let_def)
    then show ?thesis by (intro exI [of _ 1]) simp
  next
    case True
    obtain n where n: "n \<le> length ds"
        "mkdir_calls (state_of (transfer_pass p ds (transfer_files p d (files d) ?s1))) =
           mkdir_calls (transfer_files p d (files d) ?s1) @ map (dest_subdir p) (take n ds)"
      using Cons.IH by blast
    have "mkdir_calls (state_of (transfer_pass p (d # ds) s)) =
        mkdir_calls s @ map (dest_subdir p) (take (Suc n) (d # ds))"
      using True n(2) by (simp add: Let_def)
    then show ?thesis using n(1) by (intro exI [of _ "Suc n"]) simp
  qed
qed

lemma transfer_pass_mkdir_fails:
  "\<forall>d\<in>set ds1. mkdir_ok d \<Longrightarrow> \<not> mkdir_ok d \<Longrightarrow>
     transfer_pass p (ds1 @ d # ds2) s = transfer_pass p (ds1 @ [d\<lparr>files := []\<rparr>]) s \<and>
     (\<exists>s'. transfer_pass p (ds1 @ d # ds2) s = Inl (OSError, s'))"
proof -
  assume ok: "\<forall>d\<in>set ds1. mkdir_ok d" and bad: "\<not> mkdir_ok d"
  obtain s1 where s1: "transfer_pass p ds1 s = Inr s1"
    using transfer_pass_mkdir_ok [OF ok] by blast
  show ?thesis using s1 bad
    by (simp add: transfer_pass_append Let_def dest_subdir_def)
qed

section \<open>The whole run\<close>

lemma main_reaches:
  assumes "reaches_transfer inp"
  shows "main inp = finish inp (transfer_pass (plan_of inp) (transfer_walk inp) (start_state inp))"
proof -
  obtain a where a: "FILESYSTEMS (source_fs inp) = Some a"
    using assms by (auto simp: reaches_transfer_def)
  obtain b where b: "FILESYSTEMS (dest_fs inp) = Some b"
    using assms by (auto simp: reaches_transfer_def)
  obtain nf nb where sc: "scan (scan_walk inp) = (nf, nb)"
    by (cases "scan (scan_walk inp)")
  have nf: "nf \<noteq> 0" and pr: "proceed inp" and de: "dest_exists inp \<or> dest_mkdir_ok inp"
    using assms sc by (simp_all add: reaches_transfer_def)
  show ?thesis using de nf pr
    by (cases "operation_choice inp"; cases "source_writable inp"; cases "dest_exists inp";
        simp add: main_def transfer_def choose_operation_def finish_def a b sc
          plan_of_def start_state_def start_console_def setup_console_def say_def Let_def
          cong: sum.case_cong)
qed

section \<open>A failed transfer\<close>

lemma FILESYSTEMS_simps:
  "FILESYSTEMS ''FAT32'' = Some FAT32" "FILESYSTEMS ''exFAT'' = Some exFAT"
  "FILESYSTEMS ''NTFS'' = Some NTFS" "FILESYSTEMS ''ext4'' = Some ext4"
  "FILESYSTEMS ''HFS+'' = Some HFS_plus"
  by (simp_all add: FILESYSTEMS_def)

lemma one_failure_reaches: "reaches_transfer one_failure"
  by (simp add: reaches_transfer_def one_failure_def FILESYSTEMS_simps scan_def)

lemma one_failure_plan:
  "plan_of one_failure =
     \<lparr>source_root = [py ''src''], dest_root = [py ''dst''], dest_allowed = FAT32,
      operation = COPY, total_files = 2, total_bytes = 12\<rparr>"
  by (simp add: plan_of_def one_failure_def FILESYSTEMS_simps scan_def)

lemma one_failure_start:
  "start_state one_failure =
     \<lparr>console = [Title, Summary [py ''src''] ''ext4'' [py ''dst''] ''FAT32'' COPY, Scanning,
                  Found 2 12, Transferring],
      fs = [[py ''src'', py ''a.txt''] \<mapsto> ''A'', [py ''src'', py ''b.txt''] \<mapsto> ''B''],
      mkdir_calls = [], transferred_files = 0, transferred_bytes = 0\<rparr>"
  by (simp add: start_state_def start_console_def setup_console_def one_failure_plan)
    (simp add: one_failure_def)

lemma one_failure_walk:
  "transfer_walk one_failure = [\<lparr>rel_root = [], mkdir_ok = True,
                     files = [\<lparr>fname = py ''a.txt'', st_size = Some 5, xfer_ok = False\<rparr>,
                              \<lparr>fname = py ''b.txt'', st_size = Some 7, xfer_ok = True\<rparr>]\<rparr>]"
  by (simp add: one_failure_def)

lemma names1:
  "sanitize_filename (py ''a.txt'') FAT32 = py ''a.txt''"
  "sanitize_filename (py ''b.txt'') FAT32 = py ''b.txt''"
  by (simp_all add: sanitize_filename_map py_def FAT32_def windows_disallowed_def)

lemmas eval_simps = transfer_file_console transfer_file_fs transfer_file_bytes
  notices_def attempt_def copy2_def move_def src_path_def dst_path_def dest_subdir_def
  fsize_def finish_def say_def Let_def

text \<open>
  C2, at a run of two files in which the copy of \<open>a.txt\<close> fails. The failure is
  reported, the store and the byte tally are left as they were and \<open>b.txt\<close> is copied
  next; but \<open>transferred_files\<close> is incremented before the attempt, so the failed file is
  counted, and the closing line reads \<open>Done 2 7\<close>: two files transferred, of which one
  was.
\<close>

theorem failed_transfer_counted:
  "fst (main one_failure) = Returned \<and>
   console (snd (main one_failure)) =
     [Title, Summary [py ''src''] ''ext4'' [py ''dst''] ''FAT32'' COPY, Scanning,
      Found 2 12, Transferring, FailedCOPY [py ''src'', py ''a.txt''],
      ProgressUpdate 7 2 2, ProgressCompleted 12, Done 2 7] \<and>
   transferred_files (snd (main one_failure)) = 2 \<and>
   transferred_bytes (snd (main one_failure)) = 7 \<and>
   fs (snd (main one_failure)) [py ''dst'', py ''a.txt''] = None \<and>
   fs (snd (main one_failure)) [py ''dst'', py ''b.txt''] = Some ''B''"
  by (simp add: main_reaches [OF one_failure_reaches] one_failure_plan one_failure_start
      one_failure_walk names1 eval_simps) (simp add: py_def)

lemmas example_simps = top_dir_def first_file_def second_file_def FILESYSTEMS_simps scan_def
  reaches_transfer_def plan_of_def start_state_def start_console_def setup_console_def

section \<open>Two names, one destination\<close>

lemma names2:
  "sanitize_filename (py ''a:b.txt'') FAT32 = py ''a_b.txt''"
  "sanitize_filename (py ''a_b.txt'') FAT32 = py ''a_b.txt''"
  by (simp_all add: sanitize_filename_map py_def FAT32_def windows_disallowed_def underscore_def)

lemma collision_reaches: "reaches_transfer collision"
  by (simp add: collision_def example_simps)

lemma collision_plan:
  "plan_of collision =
     \<lparr>source_root = [py ''src''], dest_root = [py ''dst''], dest_allowed = FAT32,
      operation = COPY, total_files = 2, total_bytes = 11\<rparr>"
  by (simp add: collision_def example_simps)

lemma collision_start:
  "start_state collision =
     \<lparr>console = [Title, Summary [py ''src''] ''ext4'' [py ''dst''] ''FAT32'' COPY, Scanning,
                  Found 2 11, Transferring],
      fs = [[py ''src'', py ''a:b.txt''] \<mapsto> ''first'',
            [py ''src'', py ''a_b.txt''] \<mapsto> ''second''],
      mkdir_calls = [], transferred_files = 0, transferred_bytes = 0\<rparr>"
  by (simp add: collision_def example_simps)

lemma collision_walk: "transfer_walk collision = [top_dir [first_file, second_file]]"
  by (simp add: collision_def)




section \<open>Bytes discovered and bytes transferred\<close>

lemma scan_files_fold:
  "foldl scan_file (a, b) fl = (a + length fl, b + sum_list (map fsize fl))"
  by (induction fl arbitrary: a b) (simp_all add: fsize_def split: option.splits)

lemma scan_dirs_fold:
  "foldl (\<lambda>acc d. foldl scan_file acc (files d)) (a, b) walk =
     (a + length (all_files walk), b + sum_list (map fsize (all_files walk)))"
  by (induction walk arbitrary: a b) (simp_all add: scan_files_fold all_files_def)

lemma scan_eq:
  "scan walk = (length (all_files walk), sum_list (map fsize (all_files walk)))"
  by (simp add: scan_def scan_dirs_fold)

lemma sum_take_le:
  "sum_list (map g (take j xs)) \<le> (sum_list (map g xs) :: nat)"
proof -
  have "sum_list (map g xs) = sum_list (map g (take j xs @ drop j xs))"
    by simp
  also have "\<dots> = sum_list (map g (take j xs)) + sum_list (map g (drop j xs))"
    by (simp del: append_take_drop_id)
  finally show ?thesis by simp
qed

lemma all_files_append: "all_files (xs @ ys) = all_files xs @ all_files ys"
  by (simp add: all_files_def)

lemma prefix_sum_le:
  "sum_list (map fsize (all_files (walk_prefix k j walk)))
     \<le> sum_list (map fsize (all_files walk))"
proof (cases "drop k walk")
  case Nil
  then have "walk_prefix k j walk = walk"
    by (simp add: walk_prefix_def)
  then show ?thesis by simp
next
  case (Cons d ds)
  have w: "walk = take k walk @ d # ds"
    using Cons by (metis append_take_drop_id)
  have "sum_list (map fsize (all_files (walk_prefix k j walk))) =
      sum_list (map fsize (all_files (take k walk))) + sum_list (map fsize (take j (files d)))"
    using Cons by (simp add: walk_prefix_def all_files_append) (simp add: all_files_def)
  also have "\<dots> \<le> sum_list (map fsize (all_files (take k walk))) + sum_list (map fsize (files d))
      + sum_list (map fsize (all_files ds))"
    using sum_take_le [of fsize j "files d"] by simp
  also have "\<dots> = sum_list (map fsize (all_files (take k walk @ d # ds)))"
    by (simp add: all_files_def)
  finally show ?thesis using w by simp
qed

lemma start_state_bytes [simp]: "transferred_bytes (start_state inp) = 0"
  by (simp add: start_state_def)

lemma finish_bytes [simp]: "transferred_bytes (snd (finish inp r)) = transferred_bytes (state_of r)"
  by (simp add: finish_def say_def state_of_def split: sum.splits prod.splits)

lemma transfer_files_dir:
  assumes "rel_root d' = rel_root d"
  shows "transfer_files p d' fl s = transfer_files p d fl s"
proof -
  have sp: "src_path p d' = src_path p d"
    by (intro ext) (simp add: src_path_def assms)
  have dp: "dst_path p d' = dst_path p d"
    by (intro ext) (simp add: dst_path_def dest_subdir_def assms)
  have "transfer_file p d' = transfer_file p d"
    unfolding transfer_file_def sp dp by (rule refl)
  then show ?thesis by (simp add: transfer_files_def)
qed

lemma pass_resumes:
  assumes "drop k walk = d # ds" "\<forall>d'\<in>set (take k walk). mkdir_ok d'" "mkdir_ok d"
  shows "transfer_pass p walk s =
     transfer_pass p ds
       (transfer_files p d (drop j (files d))
          (state_of (transfer_pass p (walk_prefix k j walk) s)))"
proof -
  have w: "walk = take k walk @ d # ds"
    using assms(1) by (metis append_take_drop_id)
  obtain s1 where s1: "transfer_pass p (take k walk) s = Inr s1"
    using transfer_pass_mkdir_ok [OF assms(2)] by blast
  let ?s2 = "s1\<lparr>mkdir_calls := mkdir_calls s1 @ [dest_subdir p d]\<rparr>"
  have a: "transfer_pass p (take k walk @ d # ds) s =
      transfer_pass p ds (transfer_files p d (files d) ?s2)"
    using s1 assms(3) by (simp add: transfer_pass_append Let_def)
  have b: "state_of (transfer_pass p (walk_prefix k j walk) s) =
      transfer_files p d (take j (files d)) ?s2"
    using s1 assms(1,3)
      transfer_files_dir [of "d\<lparr>files := take j (files d)\<rparr>" d p "take j (files d)" ?s2]
    by (simp add: walk_prefix_def transfer_pass_append Let_def dest_subdir_def)
  have "transfer_files p d (files d) ?s2 =
      transfer_files p d (drop j (files d)) (transfer_files p d (take j (files d)) ?s2)"
    using transfer_files_append [of p d "take j (files d)" "drop j (files d)" ?s2] by simp
  then show ?thesis using a b w by simp
qed

lemma grown_reaches: "reaches_transfer grown"
  by (simp add: grown_def example_simps)

lemma grown_plan:
  "plan_of grown =
     \<lparr>source_root = [py ''src''], dest_root = [py ''dst''], dest_allowed = FAT32,
      operation = COPY, total_files = 1, total_bytes = 3\<rparr>"
  by (simp add: grown_def example_simps)

lemma grown_start:
  "start_state grown =
     \<lparr>console = [Title, Summary [py ''src''] ''ext4'' [py ''dst''] ''FAT32'' COPY, Scanning,
                  Found 1 3, Transferring],
      fs = [[py ''src'', py ''a.txt''] \<mapsto> ''hello''],
      mkdir_calls = [], transferred_files = 0, transferred_bytes = 0\<rparr>"
  by (simp add: grown_def example_simps)

lemma grown_walk:
  "transfer_walk grown =
     [top_dir [\<lparr>fname = py ''a.txt'', st_size = Some 5, xfer_ok = True\<rparr>]]"
  "scan_walk grown =
     [top_dir [\<lparr>fname = py ''a.txt'', st_size = Some 3, xfer_ok = True\<rparr>]]"
  by (simp_all add: grown_def)

text \<open>
  C4, as stated, fails: each pass reads the sizes on its own. A file of 3 bytes at
  discovery that has 5 bytes when it is transferred leaves 5 bytes transferred of 3
  discovered.
\<close>

theorem bytes_exceed_counterexample:
  "snd (scan (scan_walk grown)) = 3 \<and> transferred_bytes (snd (main grown)) = 5"
  by (simp add: main_reaches [OF grown_reaches] grown_plan grown_start grown_walk
      top_dir_def scan_def names1 eval_simps) (simp add: py_def)

text \<open>
  C4, amended. The discovered total is the sum of the sizes read at discovery, 0 for a
  file whose size could not be read. When the transfer pass walks what the discovery
  pass walked, with the same sizes, the transferred bytes stay within that total at the
  end of the run and at every point of the pass, that is after any \<open>k\<close> directories and
  \<open>j\<close> files of the next.
\<close>

theorem bytes_bounded_same_walk:
  "snd (scan walk) = sum_list (map fsize (all_files walk)) \<and>
   (reaches_transfer inp \<and> transfer_walk inp = scan_walk inp \<longrightarrow>
      transferred_bytes (snd (main inp)) \<le> snd (scan (scan_walk inp)) \<and>
      (\<forall>k j. transferred_bytes
               (state_of (transfer_pass (plan_of inp) (walk_prefix k j (transfer_walk inp))
                  (start_state inp)))
             \<le> snd (scan (scan_walk inp))))"
proof -
  have total: "snd (scan w) = sum_list (map fsize (all_files w))" for w
    by (simp add: scan_eq)
  have bound: "transferred_bytes (state_of (transfer_pass (plan_of inp) w (start_state inp)))
      \<le> sum_list (map fsize (all_files w))" for w
    using transfer_pass_bytes_le [of "plan_of inp" w "start_state inp"] by simp
  have "transferred_bytes (snd (main inp)) \<le> snd (scan (scan_walk inp))"
    if "reaches_transfer inp" "transfer_walk inp = scan_walk inp"
    using that bound [of "scan_walk inp"] by (simp add: main_reaches total)
  moreover have "transferred_bytes
        (state_of (transfer_pass (plan_of inp) (walk_prefix k j (transfer_walk inp))
           (start_state inp)))
      \<le> snd (scan (scan_walk inp))"
    if "transfer_walk inp = scan_walk inp" for k j
    using that bound [of "walk_prefix k j (scan_walk inp)"]
      prefix_sum_le [of k j "scan_walk inp"]
    by (simp add: total)
  ultimately show ?thesis using total by blast
qed

theorem bytes_bounded_same_walk_witness:
  "reaches_transfer one_failure \<and> transfer_walk one_failure = scan_walk one_failure \<and>
   snd (scan (scan_walk one_failure)) = 12 \<and>
   transferred_bytes (snd (main one_failure)) \<le> 12 \<and>
   transferred_bytes
     (state_of (transfer_pass (plan_of one_failure)
        (walk_prefix 0 1 (transfer_walk one_failure)) (start_state one_failure))) \<le> 12"
proof -
  have r: "reaches_transfer one_failure"
    by (rule one_failure_reaches)
  have w: "transfer_walk one_failure = scan_walk one_failure"
    by (simp add: one_failure_def)
  have t: "snd (scan (scan_walk one_failure)) = 12"
    by (simp add: one_failure_def scan_def)
  have "transferred_bytes (snd (main one_failure)) \<le> snd (scan (scan_walk one_failure)) \<and>
      (\<forall>k j. transferred_bytes
               (state_of (transfer_pass (plan_of one_failure)
                  (walk_prefix k j (transfer_walk one_failure)) (start_state one_failure)))
             \<le> snd (scan (scan_walk one_failure)))"
    using bytes_bounded_same_walk [of "scan_walk one_failure" one_failure] r w by blast
  then have "transferred_bytes (snd (main one_failure)) \<le> 12 \<and>
      transferred_bytes
        (state_of (transfer_pass (plan_of one_failure)
           (walk_prefix 0 1 (transfer_walk one_failure)) (start_state one_failure))) \<le> 12"
    unfolding t by blast
  then show ?thesis using r w t by blast
qed

section \<open>A directory that cannot be created\<close>

lemma names3:
  "sanitize_filename (py ''c.txt'') FAT32 = py ''c.txt''"
  "sanitize_filename (py ''c:d.txt'') FAT32 = py ''c_d.txt''"
  "sanitize_filename (py ''a:b'') FAT32 = py ''a_b''"
  by (simp_all add: sanitize_filename_map py_def FAT32_def windows_disallowed_def underscore_def)

lemma mkdir_failure_reaches: "reaches_transfer mkdir_failure"
  by (simp add: mkdir_failure_def failing_walk_def example_simps)

lemma mkdir_failure_plan:
  "plan_of mkdir_failure =
     \<lparr>source_root = [py ''src''], dest_root = [py ''dst''], dest_allowed = FAT32,
      operation = COPY, total_files = 3, total_bytes = 3\<rparr>"
  by (simp add: mkdir_failure_def failing_walk_def example_simps)

lemma mkdir_failure_start:
  "start_state mkdir_failure =
     \<lparr>console = [Title, Summary [py ''src''] ''ext4'' [py ''dst''] ''FAT32'' COPY, Scanning,
                  Found 3 3, Transferring],
      fs = [[py ''src'', py ''a.txt''] \<mapsto> ''A'',
            [py ''src'', py ''sub'', py ''b.txt''] \<mapsto> ''B'',
            [py ''src'', py ''other'', py ''c.txt''] \<mapsto> ''C''],
      mkdir_calls = [], transferred_files = 0, transferred_bytes = 0\<rparr>"
  by (simp add: mkdir_failure_def failing_walk_def example_simps)

lemma mkdir_failure_walk:
  "transfer_walk mkdir_failure =
        [top_dir [\<lparr>fname = py ''a.txt'', st_size = Some 1, xfer_ok = True\<rparr>],
         \<lparr>rel_root = [py ''sub''], mkdir_ok = False,
          files = [\<lparr>fname = py ''b.txt'', st_size = Some 1, xfer_ok = True\<rparr>]\<rparr>,
         \<lparr>rel_root = [py ''other''], mkdir_ok = True,
          files = [\<lparr>fname = py ''c.txt'', st_size = Some 1, xfer_ok = True\<rparr>]\<rparr>]"
  by (simp add: mkdir_failure_def failing_walk_def)


lemma start_console_no_Done: "Done n b \<notin> set (start_console inp)"
  by (simp add: start_console_def setup_console_def)

lemma pass_no_Done: "Done n b \<notin> set (console (state_of (transfer_pass p walk (start_state inp))))"
proof -
  obtain ev where ev:
      "console (state_of (transfer_pass p walk (start_state inp))) =
         console (start_state inp) @ ev"
      "list_all is_transfer_event ev"
    using transfer_pass_console by blast
  have "Done n b \<notin> set ev"
    using ev(2) by (auto simp: list_all_iff)
  then show ?thesis
    using ev(1) start_console_no_Done [of n b inp] by (simp add: start_state_def)
qed



section \<open>MOVE from a source that is not writable\<close>

lemma quiet_eq_iff:
  "quiet s = quiet t \<longleftrightarrow>
     fs s = fs t \<and> mkdir_calls s = mkdir_calls t \<and>
     transferred_files s = transferred_files t \<and> transferred_bytes s = transferred_bytes t"
  by (cases s, cases t) (simp add: quiet_def)

lemma transfer_file_quiet:
  assumes "quiet s = quiet t"
  shows "quiet (transfer_file p d s f) = quiet (transfer_file p d t f)"
proof -
  have e: "fs s = fs t" "transferred_files s = transferred_files t"
      "transferred_bytes s = transferred_bytes t" "mkdir_calls s = mkdir_calls t"
    using assms by (simp_all add: quiet_eq_iff)
  show ?thesis
    unfolding quiet_eq_iff transfer_file_fs transfer_file_bytes transfer_file_files
      transfer_file_mkdir e
    by simp
qed

lemma transfer_files_quiet:
  "quiet s = quiet t \<Longrightarrow> quiet (transfer_files p d fl s) = quiet (transfer_files p d fl t)"
proof (induction fl arbitrary: s t)
  case Nil
  then show ?case by simp
next
  case (Cons f fl)
  have "quiet (transfer_file p d s f) = quiet (transfer_file p d t f)"
    using Cons.prems by (rule transfer_file_quiet)
  then have "quiet (transfer_files p d fl (transfer_file p d s f)) =
      quiet (transfer_files p d fl (transfer_file p d t f))"
    by (rule Cons.IH)
  then show ?case by simp
qed

lemma transfer_pass_quiet:
  "quiet s = quiet t \<Longrightarrow>
     quiet_result (transfer_pass p walk s) = quiet_result (transfer_pass p walk t)"
proof (induction walk arbitrary: s t)
  case Nil
  then show ?case by (simp add: quiet_result_def)
next
  case (Cons d ds)
  let ?s1 = "s\<lparr>mkdir_calls := mkdir_calls s @ [dest_subdir p d]\<rparr>"
  let ?t1 = "t\<lparr>mkdir_calls := mkdir_calls t @ [dest_subdir p d]\<rparr>"
  have q1: "quiet ?s1 = quiet ?t1"
    using Cons.prems by (simp add: quiet_eq_iff)
  show ?case
  proof (cases "mkdir_ok d")
    case False
    then show ?thesis using q1 by (simp add: Let_def quiet_result_def)
  next
    case True
    have "quiet (transfer_files p d (files d) ?s1) = quiet (transfer_files p d (files d) ?t1)"
      using q1 by (rule transfer_files_quiet)
    then have "quiet_result (transfer_pass p ds (transfer_files p d (files d) ?s1)) =
        quiet_result (transfer_pass p ds (transfer_files p d (files d) ?t1))"
      by (rule Cons.IH)
    then show ?thesis using True by (simp add: Let_def)
  qed
qed

lemma quiet_result_Inl:
  "quiet_result r = Inl (e, q) \<longleftrightarrow> (\<exists>s. r = Inl (e, s) \<and> quiet s = q)"
  by (cases r) (auto simp: quiet_result_def)

lemma quiet_result_Inr:
  "quiet_result r = Inr q \<longleftrightarrow> (\<exists>s. r = Inr s \<and> quiet s = q)"
  by (cases r) (auto simp: quiet_result_def)

lemma finish_Inl: "finish inp (Inl (e, s)) = (Uncaught e, s)"
  by (simp add: finish_def)

lemma finish_Inr:
  "fst (finish inp (Inr s)) = Returned" "quiet (snd (finish inp (Inr s))) = quiet s"
  by (simp_all add: finish_def say_def quiet_def)

lemma finish_quiet:
  assumes "quiet_result r = quiet_result r'"
  shows "fst (finish inp r) = fst (finish inp' r') \<and>
     quiet (snd (finish inp r)) = quiet (snd (finish inp' r'))"
proof (cases r)
  case (Inl a)
  obtain e s where a: "a = (e, s)" by (cases a)
  have "quiet_result r' = Inl (e, quiet s)"
    using assms Inl a by (simp add: quiet_result_def)
  then obtain s' where "r' = Inl (e, s')" "quiet s' = quiet s"
    unfolding quiet_result_Inl by blast
  then show ?thesis using Inl a by (simp add: finish_Inl)
next
  case (Inr s)
  have "quiet_result r' = Inr (quiet s)"
    using assms Inr by (simp add: quiet_result_def)
  then obtain s' where "r' = Inr s'" "quiet s' = quiet s"
    unfolding quiet_result_Inr by blast
  then show ?thesis using Inr by (simp add: finish_Inr)
qed

lemma finish_fs [simp]: "fs (snd (finish inp r)) = fs (state_of r)"
  by (simp add: finish_def say_def state_of_def split: sum.splits prod.splits)

lemma finish_mkdir [simp]: "mkdir_calls (snd (finish inp r)) = mkdir_calls (state_of r)"
  by (simp add: finish_def say_def state_of_def split: sum.splits prod.splits)

lemma finish_console: "\<exists>ev. console (snd (finish inp r)) = console (state_of r) @ ev"
  by (simp add: finish_def say_def state_of_def split: sum.splits prod.splits)

lemma main_stops:
  assumes "FILESYSTEMS (source_fs inp) \<noteq> None" "dest_exists inp \<or> dest_mkdir_ok inp"
    and "FILESYSTEMS (dest_fs inp) \<noteq> None"
    and "fst (scan (scan_walk inp)) = 0 \<or> \<not> proceed inp"
  shows "fst (main inp) = SysExit 0 \<and> quiet (snd (main inp)) = quiet (start_state inp) \<and>
         (\<exists>rest. console (snd (main inp)) = setup_console inp @ rest)"
proof -
  obtain a where a: "FILESYSTEMS (source_fs inp) = Some a"
    using assms(1) by auto
  obtain b where b: "FILESYSTEMS (dest_fs inp) = Some b"
    using assms(3) by auto
  obtain nf nb where sc: "scan (scan_walk inp) = (nf, nb)"
    by (cases "scan (scan_walk inp)")
  have stop: "nf = 0 \<or> \<not> proceed inp"
    using assms(4) sc by simp
  show ?thesis using assms(2) stop
    by (cases "operation_choice inp"; cases "source_writable inp"; cases "dest_exists inp";
        cases "nf = 0";
        simp add: main_def transfer_def choose_operation_def a b sc
          plan_of_def start_state_def start_console_def setup_console_def say_def Let_def
          quiet_eq_iff)
qed

lemma main_console_prefix:
  assumes "FILESYSTEMS (source_fs inp) \<noteq> None" "dest_exists inp \<or> dest_mkdir_ok inp"
    and "FILESYSTEMS (dest_fs inp) \<noteq> None"
  shows "\<exists>rest. console (snd (main inp)) = setup_console inp @ rest"
proof (cases "fst (scan (scan_walk inp)) = 0 \<or> \<not> proceed inp")
  case True
  then show ?thesis using main_stops [OF assms] by blast
next
  case False
  then have r: "reaches_transfer inp"
    using assms by (simp add: reaches_transfer_def)
  let ?r = "transfer_pass (plan_of inp) (transfer_walk inp) (start_state inp)"
  obtain ev1 where ev1: "console (state_of ?r) = console (start_state inp) @ ev1"
    using transfer_pass_console by blast
  obtain ev2 where ev2: "console (snd (finish inp ?r)) = console (state_of ?r) @ ev2"
    using finish_console by blast
  have "console (snd (main inp)) =
      setup_console inp @
      ([Found (total_files (plan_of inp)) (total_bytes (plan_of inp)), Transferring] @ ev1 @ ev2)"
    using ev1 ev2 by (simp add: main_reaches [OF r] start_state_def start_console_def)
  then show ?thesis by blast
qed


lemma readonly_move_plan:
  "plan_of readonly_move =
     \<lparr>source_root = [py ''src''], dest_root = [py ''dst''], dest_allowed = FAT32,
      operation = COPY, total_files = 1, total_bytes = 5\<rparr>"
  by (simp add: readonly_move_def example_simps)

lemma readonly_move_start:
  "start_state readonly_move =
     \<lparr>console = [Title, SwitchWarning [py ''src''],
                  Summary [py ''src''] ''ext4'' [py ''dst''] ''FAT32'' COPY, Scanning,
                  Found 1 5, Transferring],
      fs = [[py ''src'', py ''a.txt''] \<mapsto> ''hello''],
      mkdir_calls = [], transferred_files = 0, transferred_bytes = 0\<rparr>"
  by (simp add: readonly_move_def example_simps)

lemma readonly_move_walk:
  "transfer_walk readonly_move =
     [top_dir [\<lparr>fname = py ''a.txt'', st_size = Some 5, xfer_ok = True\<rparr>]]"
  by (simp add: readonly_move_def)

lemma readonly_move_reaches: "reaches_transfer readonly_move"
  by (simp add: readonly_move_def example_simps)


section \<open>Directory names\<close>

lemma dest_subdir_fun: "dest_subdir p = (\<lambda>d. dest_root p @ rel_root d)"
  by (simp add: dest_subdir_def fun_eq_iff)


lemma illegal_dir_reaches: "reaches_transfer illegal_dir"
  by (simp add: illegal_dir_def example_simps)

lemma illegal_dir_plan:
  "plan_of illegal_dir =
     \<lparr>source_root = [py ''src''], dest_root = [py ''dst''], dest_allowed = FAT32,
      operation = COPY, total_files = 1, total_bytes = 4\<rparr>"
  by (simp add: illegal_dir_def example_simps)

lemma illegal_dir_start:
  "start_state illegal_dir =
     \<lparr>console = [Title, Summary [py ''src''] ''ext4'' [py ''dst''] ''FAT32'' COPY, Scanning,
                  Found 1 4, Transferring],
      fs = [[py ''src'', py ''a:b'', py ''c:d.txt''] \<mapsto> ''data''],
      mkdir_calls = [], transferred_files = 0, transferred_bytes = 0\<rparr>"
  by (simp add: illegal_dir_def example_simps)

lemma illegal_dir_walk:
  "transfer_walk illegal_dir =
     [top_dir [],
      \<lparr>rel_root = [py ''a:b''], mkdir_ok = True,
       files = [\<lparr>fname = py ''c:d.txt'', st_size = Some 4, xfer_ok = True\<rparr>]\<rparr>]"
  by (simp add: illegal_dir_def)


end
